theory Spec2Isabelle
  imports Complex_Main
begin

section \<open>Module constants of LeapMotionControl.py\<close>

text \<open>
  The script keeps its configuration in module-level constants. Python floats are
  idealised as real numbers throughout: the development is about the formulas the script
  evaluates, not about the rounding of IEEE doubles.
\<close>

definition NO_SERIAL :: bool where
  "NO_SERIAL = False"

definition FRAME_RATE :: int where
  "FRAME_RATE = 10"

definition NUM_ACTUATORS :: nat where
  "NUM_ACTUATORS = 6"

definition HOME_POSITION_HEIGHT :: real where
  "HOME_POSITION_HEIGHT = 319.0"

definition MIN_ACTUATOR_LEN :: real where
  "MIN_ACTUATOR_LEN = 335.0"

text \<open>A \<open>np.matrix\<close> is always two-dimensional: a list of rows.\<close>

type_synonym matrix = "real list list"

definition BASE_POS :: matrix where
  "BASE_POS =
     [[-246.34, 86.42, 0],
      [-198.16, 170.38, 0],
      [198.16, 170.38, 0],
      [246.34, 86.42, 0],
      [48.48, -256.80, 0],
      [-48.48, -256.80, 0]]"

definition END_EFF_POS :: matrix where
  "END_EFF_POS =
     [[-225.6, -73.26, 0, 1.0],
      [-49.35, 232.01, 0, 1.0],
      [49.35, 232.01, 0, 1.0],
      [225.60, -73.26, 0, 1.0],
      [176.25, -158.75, 0, 1.0],
      [-176.25, -158.75, 0, 1.0]]"

section \<open>The numpy operations the script uses\<close>

text \<open>
  \<open>M[i]\<close> on a matrix is the 1-row matrix holding row \<open>i\<close>. The script indexes only
  with \<open>i\<close> from \<open>xrange(NUM_ACTUATORS)\<close>, which is in range for both geometry tables
  (lemma \<open>geometry_rows\<close> below), so the IndexError of numpy is never reached.
\<close>

definition mat_row :: "matrix \<Rightarrow> nat \<Rightarrow> matrix" where
  "mat_row m i = [m ! i]"

text \<open>\<open>M.T\<close>: the transpose of a rectangular matrix.\<close>

definition mat_T :: "matrix \<Rightarrow> matrix" where
  "mat_T m = (case m of [] \<Rightarrow> [] | r # _ \<Rightarrow> map (\<lambda>j. map (\<lambda>row. row ! j) m) [0..<length r])"

definition dot :: "real list \<Rightarrow> real list \<Rightarrow> real" where
  "dot u v = sum_list (map2 (*) u v)"

text \<open>\<open>A * B\<close> on matrices is the matrix product.\<close>

definition mat_mul :: "matrix \<Rightarrow> matrix \<Rightarrow> matrix" where
  "mat_mul a b = map (\<lambda>row. map (\<lambda>col. dot row col) (mat_T b)) a"

text \<open>\<open>A + B\<close> and \<open>A - B\<close> on matrices of one shape work entry by entry.\<close>

definition mat_add :: "matrix \<Rightarrow> matrix \<Rightarrow> matrix" where
  "mat_add a b = map2 (map2 (+)) a b"

definition mat_sub :: "matrix \<Rightarrow> matrix \<Rightarrow> matrix" where
  "mat_sub a b = map2 (map2 (-)) a b"

text \<open>\<open>M[:n,:]\<close>: the first \<open>n\<close> rows.\<close>

definition mat_rows_upto :: "nat \<Rightarrow> matrix \<Rightarrow> matrix" where
  "mat_rows_upto n m = take n m"

text \<open>
  \<open>np.linalg.norm\<close> with no \<open>ord\<close> is the Frobenius norm: the square root of the sum
  of the squares of all entries.
\<close>

definition linalg_norm :: "matrix \<Rightarrow> real" where
  "linalg_norm m = sqrt (sum_list (map (\<lambda>v. v * v) (concat m)))"

section \<open>The tracking data read by the callback\<close>

datatype vector = Vector (vec_x: real) (vec_y: real) (vec_z: real)

text \<open>
  Of a tracked hand the callback reads \<open>is_valid\<close>, \<open>palm_position\<close>,
  \<open>direction.pitch\<close>, \<open>direction.yaw\<close> and \<open>palm_normal.roll\<close> (angles in radians).
\<close>

record hand =
  is_valid :: bool
  palm_position :: vector
  direction_pitch :: real
  direction_yaw :: real
  palm_normal_roll :: real

text \<open>
  Of a frame the callback reads \<open>len(frame.hands)\<close> and \<open>frame.hands.rightmost\<close>;
  which hand the tracking library calls rightmost is the library's business.
\<close>

record frame =
  hands_len :: nat
  hands_rightmost :: hand

section \<open>Kinematics: lines 91 to 106 of on_frame\<close>

definition transform_matrix :: "real \<Rightarrow> real \<Rightarrow> real \<Rightarrow> matrix" where
  "transform_matrix pitch yaw roll =
     [[cos yaw * cos pitch, cos pitch * sin yaw, - sin pitch, 0],
      [cos yaw * sin pitch * sin roll - sin yaw * cos roll,
       cos yaw * cos roll + sin roll * sin yaw * sin pitch,
       cos pitch * sin roll, 0],
      [cos yaw * sin pitch * cos roll + sin yaw * sin roll,
       - cos yaw * sin roll + cos roll * sin yaw * sin pitch,
       cos pitch * cos roll, 0],
      [0, 0, 0, 1]]"

definition effector_pos :: "matrix \<Rightarrow> vector \<Rightarrow> nat \<Rightarrow> matrix" where
  "effector_pos tm pos i =
     mat_add (mat_mul tm (mat_T (mat_row END_EFF_POS i)))
             (mat_T [[vec_x pos, - vec_z pos, vec_y pos + HOME_POSITION_HEIGHT, 0]])"

text \<open>The loop over \<open>xrange(NUM_ACTUATORS)\<close> appends one length per actuator.\<close>

definition actuator_lengths :: "hand \<Rightarrow> real list" where
  "actuator_lengths h =
     (let pos = palm_position h;
          tm = transform_matrix (direction_pitch h) (direction_yaw h) (palm_normal_roll h)
      in map (\<lambda>i. linalg_norm (mat_sub (mat_rows_upto 3 (effector_pos tm pos i))
                                        (mat_T (mat_row BASE_POS i)))
                   - MIN_ACTUATOR_LEN)
             [0..<NUM_ACTUATORS])"

section \<open>assemble_serial_output\<close>

text \<open>\<open>int(l)\<close> on a float drops the fractional part.\<close>

definition python_int :: "real \<Rightarrow> int" where
  "python_int v = (if v < 0 then - \<lfloor>- v\<rfloor> else \<lfloor>v\<rfloor>)"

definition digit_char :: "nat \<Rightarrow> char" where
  "digit_char d = ''0123456789'' ! d"

fun str_nat :: "nat \<Rightarrow> string" where
  "str_nat n = (if n < 10 then [digit_char n] else str_nat (n div 10) @ [digit_char (n mod 10)])"

declare str_nat.simps [simp del]

text \<open>\<open>str\<close> of an integer: decimal digits, a minus sign in front of a negative one.\<close>

definition str_int :: "int \<Rightarrow> string" where
  "str_int k = (if k < 0 then CHR ''-'' # str_nat (nat (- k)) else str_nat (nat k))"

text \<open>\<open>sep.join(parts)\<close>.\<close>

fun join :: "string \<Rightarrow> string list \<Rightarrow> string" where
  "join sep [] = []"
| "join sep [s] = s"
| "join sep (s # t # ts) = s @ sep @ join sep (t # ts)"

definition assemble_serial_output :: "real list \<Rightarrow> string" where
  "assemble_serial_output actuators =
     concat [''<'', join '','' (map (\<lambda>l. str_int (python_int l)) actuators), ''>'']"

section \<open>The listener: state, effects and the serial device\<close>

text \<open>
  The listener object holds the frame counter and the serial port. The port is an
  external device: of it the model keeps whether it is open, and the calls made on it.
\<close>

record listener =
  frame_count :: int
  ser_is_open :: bool

text \<open>What a callback does to the outside: lines printed and calls on the port.\<close>

datatype event = Print string | SerWrite string | SerClose | SerOpen

text \<open>
  How the device answers \<open>ser.write\<close>: the write returns, it raises
  \<open>SerialTimeoutException\<close> (the port was opened with \<open>write_timeout=1\<close>), or it
  raises another serial error, which no handler of the script catches.
\<close>

datatype write_outcome = Written | WriteTimeout | WriteFault

datatype exn = SerialException

text \<open>
  The result of one callback: the listener afterwards, the effects in program order, the
  exception that left the callback (if any), and the local \<open>actuator_lengths\<close> as it
  is bound when the callback ends (\<open>None\<close>: the kinematics block was not executed).
\<close>

record frame_result =
  after :: listener
  effects :: "event list"
  raised :: "exn option"
  computed :: "real list option"

definition on_init :: "listener \<times> event list" where
  "on_init =
     (if \<not> NO_SERIAL
      then (\<lparr>frame_count = 0, ser_is_open = True\<rparr>, [Print ''Initializing'', SerOpen])
      else (\<lparr>frame_count = 0, ser_is_open = False\<rparr>, [Print ''Initializing'']))"

definition on_exit :: "listener \<Rightarrow> listener \<times> event list" where
  "on_exit self =
     (if \<not> NO_SERIAL
      then (self\<lparr>ser_is_open := False\<rparr>, [Print ''Exited'', SerClose])
      else (self, [Print ''Exited'']))"

text \<open>The handler prints its message five times.\<close>

definition timeout_messages :: "event list" where
  "timeout_messages = replicate 5 (Print ''Timeout detected!'')"

text \<open>
  \<open>on_frame\<close>, with the frame that \<open>controller.frame()\<close> returns and the answer of the
  device to the write, should one be made. The branches follow the source: the hands test,
  the validity test, the pacing test, the \<open>NO_SERIAL\<close> test and the \<open>try\<close> block.
  When the write raises an error other than the timeout, the exception leaves the callback
  before \<open>self.frame_count = 0\<close> is reached. The device answers the write only:
  \<open>ser.close()\<close> and \<open>ser.open()\<close> in the handler are taken to return.
\<close>

definition on_frame :: "listener \<Rightarrow> frame \<Rightarrow> write_outcome \<Rightarrow> frame_result" where
  "on_frame self fr w =
     (if hands_len fr > 0 then
        let hand = hands_rightmost fr in
        if is_valid hand then
          let lens = actuator_lengths hand;
              ser_string = assemble_serial_output lens
          in if frame_count self > FRAME_RATE then
               (if \<not> NO_SERIAL then
                  (case w of
                     Written \<Rightarrow>
                       \<lparr>after = self\<lparr>frame_count := 0\<rparr>,
                        effects = [Print ser_string, SerWrite ser_string],
                        raised = None, computed = Some lens\<rparr>
                   | WriteTimeout \<Rightarrow>
                       \<lparr>after = self\<lparr>ser_is_open := True, frame_count := 0\<rparr>,
                        effects = [Print ser_string, SerWrite ser_string] @ timeout_messages
                                  @ [SerClose, SerOpen],
                        raised = None, computed = Some lens\<rparr>
                   | WriteFault \<Rightarrow>
                       \<lparr>after = self,
                        effects = [Print ser_string, SerWrite ser_string],
                        raised = Some SerialException, computed = Some lens\<rparr>)
                else
                  \<lparr>after = self\<lparr>frame_count := 0\<rparr>, effects = [Print ser_string],
                   raised = None, computed = Some lens\<rparr>)
             else
               \<lparr>after = self\<lparr>frame_count := frame_count self + 1\<rparr>, effects = [],
                raised = None, computed = Some lens\<rparr>
        else \<lparr>after = self, effects = [], raised = None, computed = None\<rparr>
      else \<lparr>after = self, effects = [], raised = None, computed = None\<rparr>)"

text \<open>A frame has a valid hand when both tests of the callback pass.\<close>

definition has_valid_hand :: "frame \<Rightarrow> bool" where
  "has_valid_hand fr = (hands_len fr > 0 \<and> is_valid (hands_rightmost fr))"

text \<open>
  A session: the tracking library calls \<open>on_frame\<close> once per frame, in order. An
  exception that leaves a callback ends the session.
\<close>

record session =
  listener_now :: listener
  emitted :: "event list"
  aborted :: bool

fun run :: "listener \<Rightarrow> (frame \<times> write_outcome) list \<Rightarrow> session" where
  "run self [] = \<lparr>listener_now = self, emitted = [], aborted = False\<rparr>"
| "run self ((fr, w) # rest) =
     (let r = on_frame self fr w in
      case raised r of
        Some e \<Rightarrow> \<lparr>listener_now = after r, emitted = effects r, aborted = True\<rparr>
      | None \<Rightarrow> (let s = run (after r) rest in s\<lparr>emitted := effects r @ emitted s\<rparr>))"

fun is_write :: "event \<Rightarrow> bool" where
  "is_write (SerWrite s) = True"
| "is_write e = False"

text \<open>The number of calls of \<open>ser.write\<close> among some effects.\<close>

definition transmissions :: "event list \<Rightarrow> nat" where
  "transmissions es = length (filter is_write es)"

text \<open>
  On valid-pose frames the counter runs through \<open>0, 1, \<dots>, FRAME_RATE + 1\<close> and
  starts again: a cycle of \<open>FRAME_RATE + 2\<close> frames.
\<close>

definition cycle_length :: nat where
  "cycle_length = nat FRAME_RATE + 2"

section \<open>The actuator length as the specification words it\<close>

text \<open>
  The entry in row \<open>r\<close> and column \<open>c\<close> of the matrix \<open>R\<close> that the specification
  writes out: three rows of products of sines and cosines of yaw, pitch and roll, and a
  last row and a last column \<open>(0, 0, 0, 1)\<close>.
\<close>

definition spec_R :: "real \<Rightarrow> real \<Rightarrow> real \<Rightarrow> nat \<Rightarrow> nat \<Rightarrow> real" where
  "spec_R pitch yaw roll r c =
     (if r = 3 \<or> c = 3 then (if r = 3 \<and> c = 3 then 1 else 0)
      else if r = 0 then
        (if c = 0 then cos yaw * cos pitch
         else if c = 1 then cos pitch * sin yaw
         else - sin pitch)
      else if r = 1 then
        (if c = 0 then cos yaw * sin pitch * sin roll - sin yaw * cos roll
         else if c = 1 then cos yaw * cos roll + sin roll * sin yaw * sin pitch
         else cos pitch * sin roll)
      else
        (if c = 0 then cos yaw * sin pitch * cos roll + sin yaw * sin roll
         else if c = 1 then - cos yaw * sin roll + cos roll * sin yaw * sin pitch
         else cos pitch * cos roll))"

text \<open>
  Entry \<open>k\<close> of \<open>R \<cdot> effector[i]\<^sup>t + (x, -z, y + HOME_POSITION_HEIGHT, 0)\<^sup>t\<close>, and the
  Euclidean norm of the difference of its first three entries to \<open>base[i]\<close>, less the
  minimum actuator length.
\<close>

definition spec_effector_world :: "hand \<Rightarrow> nat \<Rightarrow> nat \<Rightarrow> real" where
  "spec_effector_world h i k =
     (\<Sum>j<4. spec_R (direction_pitch h) (direction_yaw h) (palm_normal_roll h) k j
              * END_EFF_POS ! i ! j)
     + [vec_x (palm_position h), - vec_z (palm_position h),
        vec_y (palm_position h) + HOME_POSITION_HEIGHT, 0] ! k"

definition spec_length :: "hand \<Rightarrow> nat \<Rightarrow> real" where
  "spec_length h i =
     sqrt (\<Sum>k<3. (spec_effector_world h i k - BASE_POS ! i ! k)\<^sup>2) - MIN_ACTUATOR_LEN"

text \<open>The characters Python counts as whitespace in a byte string.\<close>

definition whitespace :: "char set" where
  "whitespace = {CHR '' '', CHR 0x09, CHR 0x0A, CHR 0x0B, CHR 0x0C, CHR 0x0D}"

section \<open>Sample inputs\<close>

text \<open>A valid hand at the origin of the tracking frame, with no rotation.\<close>

definition home_hand :: hand where
  "home_hand = \<lparr>is_valid = True, palm_position = Vector 0 0 0,
                 direction_pitch = 0, direction_yaw = 0, palm_normal_roll = 0\<rparr>"

text \<open>A valid hand away from the origin, turned by a quarter turn about each axis.\<close>

definition turned_hand :: hand where
  "turned_hand = \<lparr>is_valid = True, palm_position = Vector 10 20 30,
                   direction_pitch = pi / 2, direction_yaw = pi / 2, palm_normal_roll = pi / 2\<rparr>"

definition home_frame :: frame where
  "home_frame = \<lparr>hands_len = 1, hands_rightmost = home_hand\<rparr>"

text \<open>A frame with no hands: the library then reports an invalid hand as rightmost.\<close>

definition no_hands_frame :: frame where
  "no_hands_frame = \<lparr>hands_len = 0, hands_rightmost = home_hand\<lparr>is_valid := False\<rparr>\<rparr>"

definition invalid_hand_frame :: frame where
  "invalid_hand_frame = \<lparr>hands_len = 1, hands_rightmost = home_hand\<lparr>is_valid := False\<rparr>\<rparr>"

text \<open>The listener as \<open>on_init\<close> leaves it, and one whose counter has passed the rate.\<close>

definition fresh_listener :: listener where
  "fresh_listener = fst on_init"

definition due_listener :: listener where
  "due_listener = \<lparr>frame_count = FRAME_RATE + 1, ser_is_open = True\<rparr>"

section \<open>Kinematics\<close>

lemma geometry_rows:
  "length BASE_POS = NUM_ACTUATORS" "length END_EFF_POS = NUM_ACTUATORS"
  by (simp_all add: BASE_POS_def END_EFF_POS_def NUM_ACTUATORS_def)

lemma index_cases: "i < 6 \<Longrightarrow> i = 0 \<or> i = 1 \<or> i = 2 \<or> i = 3 \<or> i = 4 \<or> i = (5::nat)"
  by arith

lemma effector_row_length: "i < 6 \<Longrightarrow> length (END_EFF_POS ! i) = 4"
  by (drule index_cases) (auto simp add: END_EFF_POS_def)

lemma base_row_length: "i < 6 \<Longrightarrow> length (BASE_POS ! i) = 3"
  by (drule index_cases) (auto simp add: BASE_POS_def)

lemma list_of_four: "length e = 4 \<Longrightarrow> e = [e ! 0, e ! 1, e ! 2, e ! 3]"
  by (auto simp add: list_eq_iff_nth_eq less_Suc_eq eval_nat_numeral)

lemma list_of_three: "length b = 3 \<Longrightarrow> b = [b ! 0, b ! 1, b ! 2]"
  by (auto simp add: list_eq_iff_nth_eq less_Suc_eq eval_nat_numeral)

lemma mat_T_row4: "mat_T [[a, b, c, d]] = [[a], [b], [c], [d]]"
  by (simp add: mat_T_def upt_rec)

lemma mat_T_row3: "mat_T [[a, b, c]] = [[a], [b], [c]]"
  by (simp add: mat_T_def upt_rec)

lemma mat_T_col4: "mat_T [[a], [b], [c], [d]] = [[a, b, c, d]]"
  by (simp add: mat_T_def)

lemma mat_mul_4x4_col:
  "mat_mul [[a0, a1, a2, a3], [b0, b1, b2, b3], [c0, c1, c2, c3], [d0, d1, d2, d3]]
           [[e0], [e1], [e2], [e3]] =
   [[a0 * e0 + a1 * e1 + a2 * e2 + a3 * e3], [b0 * e0 + b1 * e1 + b2 * e2 + b3 * e3],
    [c0 * e0 + c1 * e1 + c2 * e2 + c3 * e3], [d0 * e0 + d1 * e1 + d2 * e2 + d3 * e3]]"
  by (simp add: mat_mul_def mat_T_col4 dot_def)

lemma sum_below_4: "(\<Sum>j<4. f j) = f 0 + f 1 + f 2 + f (3::nat)"
  by (simp add: eval_nat_numeral lessThan_Suc ac_simps)

lemma sum_below_3: "(\<Sum>j<3. f j) = f 0 + f 1 + f (2::nat)"
  by (simp add: eval_nat_numeral lessThan_Suc ac_simps)

lemma nth_literal:
  "[a, b, c, d] ! 1 = b" "[a, b, c, d] ! 2 = c" "[a, b, c, d] ! 3 = d"
  by (simp_all add: eval_nat_numeral)

lemma norm_col3: "linalg_norm [[u], [v], [w]] = sqrt (u\<^sup>2 + v\<^sup>2 + w\<^sup>2)"
  by (simp add: linalg_norm_def power2_eq_square)

text \<open>One pass of the loop body on matrices given entry by entry.\<close>

lemma leg_entrywise:
  "linalg_norm (mat_sub (mat_rows_upto 3
       (mat_add (mat_mul [[a0, a1, a2, a3], [b0, b1, b2, b3], [c0, c1, c2, c3], [d0, d1, d2, d3]]
                         (mat_T [[e0, e1, e2, e3]]))
                (mat_T [[o0, o1, o2, o3]])))
     (mat_T [[p0, p1, p2]])) =
   sqrt ((a0 * e0 + a1 * e1 + a2 * e2 + a3 * e3 + o0 - p0)\<^sup>2
       + (b0 * e0 + b1 * e1 + b2 * e2 + b3 * e3 + o1 - p1)\<^sup>2
       + (c0 * e0 + c1 * e1 + c2 * e2 + c3 * e3 + o2 - p2)\<^sup>2)"
  by (simp add: mat_T_row4 mat_T_row3 mat_mul_4x4_col mat_add_def mat_sub_def
      mat_rows_upto_def norm_col3)

text \<open>The rows of the specification's matrix, and the matrix the callback builds.\<close>

lemma spec_R_rows:
  "spec_R p y r 0 0 = cos y * cos p"
  "spec_R p y r 0 1 = cos p * sin y"
  "spec_R p y r 0 2 = - sin p"
  "spec_R p y r 0 3 = 0"
  "spec_R p y r 1 0 = cos y * sin p * sin r - sin y * cos r"
  "spec_R p y r 1 1 = cos y * cos r + sin r * sin y * sin p"
  "spec_R p y r 1 2 = cos p * sin r"
  "spec_R p y r 1 3 = 0"
  "spec_R p y r 2 0 = cos y * sin p * cos r + sin y * sin r"
  "spec_R p y r 2 1 = - cos y * sin r + cos r * sin y * sin p"
  "spec_R p y r 2 2 = cos p * cos r"
  "spec_R p y r 2 3 = 0"
  "spec_R p y r 3 0 = 0"
  "spec_R p y r 3 1 = 0"
  "spec_R p y r 3 2 = 0"
  "spec_R p y r 3 3 = 1"
  by (simp_all add: spec_R_def)

lemma index_cases_4: "k < 4 \<Longrightarrow> k = 0 \<or> k = 1 \<or> k = 2 \<or> k = (3::nat)"
  by arith

lemma transform_matrix_shape:
  "length (transform_matrix p y r) = 4"
  "k < 4 \<Longrightarrow> length (transform_matrix p y r ! k) = 4"
  by (simp add: transform_matrix_def, drule index_cases_4)
     (auto simp add: transform_matrix_def nth_literal)

lemma transform_matrix_entry:
  assumes "k < 4" "j < 4"
  shows "transform_matrix p y r ! k ! j = spec_R p y r k j"
proof -
  from assms(1) have "k = 0 \<or> k = 1 \<or> k = 2 \<or> k = 3" by (rule index_cases_4)
  moreover from assms(2) have "j = 0 \<or> j = 1 \<or> j = 2 \<or> j = 3" by (rule index_cases_4)
  ultimately show ?thesis
    by (elim disjE; simp only: transform_matrix_def nth_literal nth_Cons_0 spec_R_rows)
qed

lemma actuator_lengths_length: "length (actuator_lengths h) = NUM_ACTUATORS"
  by (simp add: actuator_lengths_def Let_def)

lemma actuator_lengths_nth:
  assumes "i < 6"
  shows "actuator_lengths h ! i = spec_length h i"
proof -
  define e where "e = END_EFF_POS ! i"
  define b where "b = BASE_POS ! i"
  have e: "e = [e ! 0, e ! 1, e ! 2, e ! 3]"
    using assms effector_row_length list_of_four unfolding e_def by blast
  have b: "b = [b ! 0, b ! 1, b ! 2]"
    using assms base_row_length list_of_three unfolding b_def by blast
  have "actuator_lengths h ! i =
      linalg_norm (mat_sub (mat_rows_upto 3
         (mat_add (mat_mul (transform_matrix (direction_pitch h) (direction_yaw h) (palm_normal_roll h))
                           (mat_T [e]))
                  (mat_T [[vec_x (palm_position h), - vec_z (palm_position h),
                           vec_y (palm_position h) + HOME_POSITION_HEIGHT, 0]])))
         (mat_T [b])) - MIN_ACTUATOR_LEN"
    using assms
    by (simp add: actuator_lengths_def NUM_ACTUATORS_def Let_def effector_pos_def mat_row_def
        e_def b_def)
  also have "\<dots> = spec_length h i"
    unfolding spec_length_def spec_effector_world_def e_def [symmetric] b_def [symmetric]
    apply (subst e, subst b)
    apply (simp only: transform_matrix_def leg_entrywise sum_below_4 sum_below_3 nth_literal
        nth_Cons_0 spec_R_rows)
    done
  finally show ?thesis .
qed

lemma transform_matrix_yaw_period:
  "transform_matrix pitch (yaw + 2 * pi) roll = transform_matrix pitch yaw roll"
  by (simp add: transform_matrix_def)

text \<open>The six lengths for a valid hand at the origin with no rotation.\<close>

lemma spec_length_home:
  "spec_length home_hand 0 = sqrt 127688.85 - 335"
  "spec_length home_hand 1 = sqrt 127703.673 - 335"
  "spec_length home_hand 2 = sqrt 127703.673 - 335"
  "spec_length home_hand 3 = sqrt 127688.85 - 335"
  "spec_length home_hand 4 = sqrt 127699.9754 - 335"
  "spec_length home_hand 5 = sqrt 127699.9754 - 335"
  by (simp_all add: spec_length_def spec_effector_world_def sum_below_4 sum_below_3 home_hand_def
      spec_R_def END_EFF_POS_def BASE_POS_def HOME_POSITION_HEIGHT_def MIN_ACTUATOR_LEN_def
      eval_nat_numeral power2_eq_square)

text \<open>
  The first length for a hand at \<open>(10, 20, 30)\<close> with pitch, yaw and roll a quarter
  turn each: there \<open>R\<close> has the rows \<open>(0, 0, -1, 0)\<close>, \<open>(0, 1, 0, 0)\<close>, \<open>(1, 0, 0, 0)\<close>,
  so the effector point \<open>(-225.6, -73.26, 0)\<close> goes to \<open>(0, -73.26, -225.6)\<close>, then to
  \<open>(10, -103.26, 113.4)\<close>, which is \<open>(256.34, -189.68, 113.4)\<close> from the base point.
\<close>

lemma spec_length_turned:
  "spec_length turned_hand 0 = sqrt 114548.258 - 335"
  by (simp add: spec_length_def spec_effector_world_def sum_below_4 sum_below_3 turned_hand_def
      spec_R_def END_EFF_POS_def BASE_POS_def HOME_POSITION_HEIGHT_def MIN_ACTUATOR_LEN_def
      eval_nat_numeral power2_eq_square)

text \<open>
  Claim C4. For every hand pose the solver returns six lengths, in actuator order, and
  the length at index \<open>i\<close> is the Euclidean norm of the first three entries of
  \<open>R \<cdot> effector[i]\<^sup>t + (x, -z, y + HOME_POSITION_HEIGHT, 0)\<^sup>t\<close> minus \<open>base[i]\<close>, less
  \<open>MIN_ACTUATOR_LEN\<close>. Here \<open>R\<close> is the matrix the specification writes out, and the
  matrix the callback builds from pitch, yaw and roll is that matrix: four rows of four
  entries, each entry the specified combination of sines and cosines, the last row and
  the last column \<open>(0, 0, 0, 1)\<close>.
\<close>

theorem actuator_lengths_formula:
  "length (actuator_lengths h) = NUM_ACTUATORS
   \<and> (\<forall>i<NUM_ACTUATORS. actuator_lengths h ! i = spec_length h i)
   \<and> length (transform_matrix pitch yaw roll) = 4
   \<and> (\<forall>k<4. length (transform_matrix pitch yaw roll ! k) = 4
         \<and> (\<forall>j<4. transform_matrix pitch yaw roll ! k ! j = spec_R pitch yaw roll k j))"
proof (intro conjI allI impI)
  show "length (actuator_lengths h) = NUM_ACTUATORS"
    by (rule actuator_lengths_length)
  show "actuator_lengths h ! i = spec_length h i" if "i < NUM_ACTUATORS" for i
    using that by (simp add: NUM_ACTUATORS_def actuator_lengths_nth)
  show "length (transform_matrix pitch yaw roll) = 4"
    by (rule transform_matrix_shape(1))
  show "length (transform_matrix pitch yaw roll ! k) = 4" if "k < 4" for k
    using that by (rule transform_matrix_shape(2))
  show "transform_matrix pitch yaw roll ! k ! j = spec_R pitch yaw roll k j"
    if "k < 4" "j < 4" for k j
    using that by (rule transform_matrix_entry)
qed

theorem actuator_lengths_formula_witness:
  "(0::nat) < NUM_ACTUATORS \<and> (1::nat) < 4 \<and> (0::nat) < 4
   \<and> length (actuator_lengths turned_hand) = 6
   \<and> actuator_lengths turned_hand ! 0 = sqrt 114548.258 - 335
   \<and> actuator_lengths home_hand ! 0 = sqrt 127688.85 - 335
   \<and> transform_matrix 0 (pi / 2) 0 ! 1 ! 0 = - 1"
proof -
  from actuator_lengths_formula [of turned_hand]
  have "length (actuator_lengths turned_hand) = 6"
    and "actuator_lengths turned_hand ! 0 = spec_length turned_hand 0"
    by (simp_all add: NUM_ACTUATORS_def)
  moreover from actuator_lengths_formula [of home_hand]
  have "actuator_lengths home_hand ! 0 = spec_length home_hand 0"
    by (simp add: NUM_ACTUATORS_def)
  moreover from actuator_lengths_formula [of _ 0 "pi / 2" 0]
  have "transform_matrix 0 (pi / 2) 0 ! 1 ! 0 = spec_R 0 (pi / 2) 0 1 0"
    by simp
  ultimately show ?thesis
    by (simp add: spec_length_turned spec_length_home(1) spec_R_def NUM_ACTUATORS_def)
qed

text \<open>
  Claim C8. For pitch, yaw and roll all zero the transform matrix is the four by four
  identity matrix.
\<close>

theorem identity_pose_transform:
  "transform_matrix 0 0 0 = [[1, 0, 0, 0], [0, 1, 0, 0], [0, 0, 1, 0], [0, 0, 0, 1]]"
  by (simp add: transform_matrix_def)

text \<open>
  Claim C9. Adding a full turn to the yaw angle of a pose leaves all six actuator
  lengths as they were (over the reals).
\<close>

theorem yaw_full_turn_same_lengths:
  "actuator_lengths (h\<lparr>direction_yaw := direction_yaw h + 2 * pi\<rparr>) = actuator_lengths h"
  by (simp add: actuator_lengths_def transform_matrix_yaw_period)

section \<open>The output formatter\<close>

lemma python_int_magnitude: "\<bar>real_of_int (python_int v)\<bar> \<le> \<bar>v\<bar>"
  unfolding python_int_def by (auto; linarith)

lemma python_int_near: "\<bar>v - real_of_int (python_int v)\<bar> < 1"
  unfolding python_int_def by (auto; linarith)

lemma digit_char_range: "d < 10 \<Longrightarrow> digit_char d \<in> set ''0123456789''"
  unfolding digit_char_def by (rule nth_mem) simp

lemma str_nat_chars: "set (str_nat n) \<subseteq> set ''0123456789''"
proof (induction n rule: str_nat.induct)
  case (1 n)
  show ?case
  proof (cases "n < 10")
    case True
    then show ?thesis using digit_char_range [of n] by (subst str_nat.simps) simp
  next
    case False
    have "n mod 10 < 10" by simp
    then have "digit_char (n mod 10) \<in> set ''0123456789''" by (rule digit_char_range)
    with False 1 show ?thesis by (subst str_nat.simps) simp
  qed
qed

lemma str_int_chars: "set (str_int k) \<subseteq> set ''-0123456789''"
proof -
  have sub: "set ''0123456789'' \<subseteq> set ''-0123456789''"
    by (rule set_subset_Cons)
  show ?thesis
  proof (cases "k < 0")
    case True
    have "set (str_nat (nat (- k))) \<subseteq> set ''-0123456789''"
      using str_nat_chars sub by (rule subset_trans)
    moreover have "CHR ''-'' \<in> set ''-0123456789''"
      by (rule list.set_intros(1))
    ultimately show ?thesis using True by (simp only: str_int_def if_True set_simps insert_subset)
  next
    case False
    have "set (str_nat (nat k)) \<subseteq> set ''-0123456789''"
      using str_nat_chars sub by (rule subset_trans)
    then show ?thesis using False by (simp only: str_int_def if_False)
  qed
qed

lemma join_chars:
  "(\<forall>s \<in> set ss. set s \<subseteq> A) \<Longrightarrow> set sep \<subseteq> A \<Longrightarrow> set (join sep ss) \<subseteq> A"
  by (induction sep ss rule: join.induct) auto

lemma assemble_serial_output_chars:
  "set (assemble_serial_output xs) \<subseteq> set ''<>,-0123456789''"
proof -
  have "set ''-0123456789'' \<subseteq> set '',-0123456789''"
    by (rule set_subset_Cons)
  also have "\<dots> \<subseteq> set ''>,-0123456789''"
    by (rule set_subset_Cons)
  also have "\<dots> \<subseteq> set ''<>,-0123456789''"
    by (rule set_subset_Cons)
  finally have sub: "set ''-0123456789'' \<subseteq> set ''<>,-0123456789''" .
  have "\<forall>s \<in> set (map (\<lambda>l. str_int (python_int l)) xs). set s \<subseteq> set ''<>,-0123456789''"
    using str_int_chars sub by (fastforce simp only: set_map)
  moreover have "set '','' \<subseteq> set ''<>,-0123456789''"
    by simp
  ultimately have "set (join '','' (map (\<lambda>l. str_int (python_int l)) xs))
      \<subseteq> set ''<>,-0123456789''"
    by (rule join_chars)
  moreover have "set ''<'' \<subseteq> set ''<>,-0123456789''" "set ''>'' \<subseteq> set ''<>,-0123456789''"
    by simp_all
  ultimately show ?thesis
    by (simp only: assemble_serial_output_def concat.simps set_append Un_subset_iff append_Nil2)
qed

lemma command_chars_not_whitespace: "set ''<>,-0123456789'' \<inter> whitespace = {}"
  by (auto simp add: whitespace_def)

lemma assemble_serial_output_six:
  "assemble_serial_output [a, b, c, d, e, f] =
   ''<'' @ str_int (python_int a) @ '','' @ str_int (python_int b) @ '',''
    @ str_int (python_int c) @ '','' @ str_int (python_int d) @ '',''
    @ str_int (python_int e) @ '','' @ str_int (python_int f) @ ''>''"
  by (simp add: assemble_serial_output_def)

lemma assemble_serial_output_sample:
  "assemble_serial_output [1.7, -2.9, 0.0, 100.4, -0.1, 5.9] = ''<1,-2,0,100,0,5>''"
  by (simp add: assemble_serial_output_def python_int_def str_int_def str_nat.simps
      digit_char_def)

text \<open>
  Claim C5. The formatter turns six reals into \<open><v0,v1,v2,v3,v4,v5>\<close>: each \<open>vi\<close> is the
  decimal form of the value truncated toward zero (the integer no larger in magnitude
  than the value and less than one away from it), the parts are joined by commas inside
  angle brackets, no character of the result is whitespace, and
  \<open>[1.7, -2.9, 0.0, 100.4, -0.1, 5.9]\<close> gives \<open><1,-2,0,100,0,5>\<close>.
\<close>

lemma assemble_serial_output_no_whitespace:
  "ch \<in> set (assemble_serial_output xs) \<Longrightarrow> ch \<notin> whitespace"
proof
  assume "ch \<in> set (assemble_serial_output xs)" and "ch \<in> whitespace"
  then have "ch \<in> set ''<>,-0123456789'' \<inter> whitespace"
    using assemble_serial_output_chars [of xs] by blast
  then show False
    by (simp only: command_chars_not_whitespace empty_iff)
qed

theorem assemble_serial_output_format:
  "assemble_serial_output [a, b, c, d, e, f] =
     ''<'' @ str_int (python_int a) @ '','' @ str_int (python_int b) @ '',''
      @ str_int (python_int c) @ '','' @ str_int (python_int d) @ '',''
      @ str_int (python_int e) @ '','' @ str_int (python_int f) @ ''>''
   \<and> \<bar>real_of_int (python_int v)\<bar> \<le> \<bar>v\<bar> \<and> \<bar>v - real_of_int (python_int v)\<bar> < 1
   \<and> (\<forall>ch \<in> set (assemble_serial_output [a, b, c, d, e, f]). ch \<notin> whitespace)
   \<and> assemble_serial_output [1.7, -2.9, 0.0, 100.4, -0.1, 5.9] = ''<1,-2,0,100,0,5>''"
proof (intro conjI ballI)
  show "assemble_serial_output [a, b, c, d, e, f] =
     ''<'' @ str_int (python_int a) @ '','' @ str_int (python_int b) @ '',''
      @ str_int (python_int c) @ '','' @ str_int (python_int d) @ '',''
      @ str_int (python_int e) @ '','' @ str_int (python_int f) @ ''>''"
    by (rule assemble_serial_output_six)
  show "\<bar>real_of_int (python_int v)\<bar> \<le> \<bar>v\<bar>"
    by (rule python_int_magnitude)
  show "\<bar>v - real_of_int (python_int v)\<bar> < 1"
    by (rule python_int_near)
  show "ch \<notin> whitespace" if "ch \<in> set (assemble_serial_output [a, b, c, d, e, f])" for ch
    using that by (rule assemble_serial_output_no_whitespace)
  show "assemble_serial_output [1.7, -2.9, 0.0, 100.4, -0.1, 5.9] = ''<1,-2,0,100,0,5>''"
    by (rule assemble_serial_output_sample)
qed

theorem assemble_serial_output_format_witness:
  "CHR ''<'' \<in> set (assemble_serial_output [1.7, -2.9, 0.0, 100.4, -0.1, 5.9])
   \<and> CHR ''<'' \<notin> whitespace
   \<and> \<bar>- 2.9 - real_of_int (python_int (- 2.9))\<bar> < 1"
proof -
  have first: "CHR ''<'' \<in> set (assemble_serial_output [1.7, -2.9, 0.0, 100.4, -0.1, 5.9])"
    by (simp add: assemble_serial_output_def)
  from assemble_serial_output_format [of "1.7" "-2.9" "0.0" "100.4" "-0.1" "5.9" "- 2.9"]
  have "(\<forall>ch \<in> set (assemble_serial_output [1.7, -2.9, 0.0, 100.4, -0.1, 5.9]). ch \<notin> whitespace)"
    and "\<bar>- 2.9 - real_of_int (python_int (- 2.9))\<bar> < 1"
    by blast+
  with first show ?thesis by blast
qed

section \<open>The home pose, end to end\<close>

text \<open>
  A valid hand at the origin with no rotation: the six lengths, and the command sent.
\<close>

lemma python_int_sqrt_22:
  assumes "357\<^sup>2 \<le> q" "q < 358\<^sup>2"
  shows "python_int (sqrt q - 335) = 22"
proof -
  have lo: "357 \<le> sqrt q" using assms(1) by (rule real_le_rsqrt)
  have "0 \<le> q" using assms(1) by simp
  have hi: "sqrt q < 358" using assms(2) by (intro real_less_lsqrt) simp_all
  have "\<lfloor>sqrt q - 335\<rfloor> = 22" using lo hi by (simp add: floor_eq_iff)
  then show ?thesis using lo by (simp add: python_int_def)
qed

lemma nth_as_list:
  "length xs = 6 \<Longrightarrow> xs = [xs ! 0, xs ! 1, xs ! 2, xs ! 3, xs ! 4, xs ! 5]"
  by (auto simp add: list_eq_iff_nth_eq less_Suc_eq eval_nat_numeral)

lemma home_actuator_lengths:
  "actuator_lengths home_hand =
     [sqrt 127688.85 - 335, sqrt 127703.673 - 335, sqrt 127703.673 - 335,
      sqrt 127688.85 - 335, sqrt 127699.9754 - 335, sqrt 127699.9754 - 335]"
proof -
  have "actuator_lengths home_hand ! 0 = sqrt 127688.85 - 335"
    using actuator_lengths_nth [of 0 home_hand] spec_length_home(1) by simp
  moreover have "actuator_lengths home_hand ! 1 = sqrt 127703.673 - 335"
    using actuator_lengths_nth [of 1 home_hand] spec_length_home(2) by simp
  moreover have "actuator_lengths home_hand ! 2 = sqrt 127703.673 - 335"
    using actuator_lengths_nth [of 2 home_hand] spec_length_home(3) by simp
  moreover have "actuator_lengths home_hand ! 3 = sqrt 127688.85 - 335"
    using actuator_lengths_nth [of 3 home_hand] spec_length_home(4) by simp
  moreover have "actuator_lengths home_hand ! 4 = sqrt 127699.9754 - 335"
    using actuator_lengths_nth [of 4 home_hand] spec_length_home(5) by simp
  moreover have "actuator_lengths home_hand ! 5 = sqrt 127699.9754 - 335"
    using actuator_lengths_nth [of 5 home_hand] spec_length_home(6) by simp
  moreover have "length (actuator_lengths home_hand) = 6"
    by (simp add: actuator_lengths_length NUM_ACTUATORS_def)
  ultimately show ?thesis
    using nth_as_list [of "actuator_lengths home_hand"] by simp
qed

lemma str_int_22: "str_int 22 = ''22''"
  by (simp add: str_int_def str_nat.simps digit_char_def)

lemma home_command: "assemble_serial_output (actuator_lengths home_hand) = ''<22,22,22,22,22,22>''"
  by (simp add: home_actuator_lengths assemble_serial_output_six python_int_sqrt_22 str_int_22)

section \<open>The callback, branch by branch\<close>

lemma FRAME_RATE_nonneg: "0 \<le> FRAME_RATE"
  by (simp add: FRAME_RATE_def)

lemma on_frame_no_valid_hand:
  "\<not> has_valid_hand fr \<Longrightarrow>
   on_frame self fr w = \<lparr>after = self, effects = [], raised = None, computed = None\<rparr>"
  by (auto simp add: on_frame_def has_valid_hand_def Let_def)

lemma on_frame_skip:
  "has_valid_hand fr \<Longrightarrow> frame_count self \<le> FRAME_RATE \<Longrightarrow>
   on_frame self fr w =
     \<lparr>after = self\<lparr>frame_count := frame_count self + 1\<rparr>, effects = [], raised = None,
      computed = Some (actuator_lengths (hands_rightmost fr))\<rparr>"
  by (simp add: on_frame_def has_valid_hand_def Let_def)

lemma on_frame_written:
  "has_valid_hand fr \<Longrightarrow> FRAME_RATE < frame_count self \<Longrightarrow>
   on_frame self fr Written =
     \<lparr>after = self\<lparr>frame_count := 0\<rparr>,
      effects = [Print (assemble_serial_output (actuator_lengths (hands_rightmost fr))),
                 SerWrite (assemble_serial_output (actuator_lengths (hands_rightmost fr)))],
      raised = None, computed = Some (actuator_lengths (hands_rightmost fr))\<rparr>"
  by (simp add: on_frame_def has_valid_hand_def Let_def NO_SERIAL_def)

lemma on_frame_timeout:
  "has_valid_hand fr \<Longrightarrow> FRAME_RATE < frame_count self \<Longrightarrow>
   on_frame self fr WriteTimeout =
     \<lparr>after = self\<lparr>ser_is_open := True, frame_count := 0\<rparr>,
      effects = [Print (assemble_serial_output (actuator_lengths (hands_rightmost fr))),
                 SerWrite (assemble_serial_output (actuator_lengths (hands_rightmost fr)))]
                @ timeout_messages @ [SerClose, SerOpen],
      raised = None, computed = Some (actuator_lengths (hands_rightmost fr))\<rparr>"
  by (simp add: on_frame_def has_valid_hand_def Let_def NO_SERIAL_def)

lemma on_frame_fault:
  "has_valid_hand fr \<Longrightarrow> FRAME_RATE < frame_count self \<Longrightarrow>
   on_frame self fr WriteFault =
     \<lparr>after = self,
      effects = [Print (assemble_serial_output (actuator_lengths (hands_rightmost fr))),
                 SerWrite (assemble_serial_output (actuator_lengths (hands_rightmost fr)))],
      raised = Some SerialException, computed = Some (actuator_lengths (hands_rightmost fr))\<rparr>"
  by (simp add: on_frame_def has_valid_hand_def Let_def NO_SERIAL_def)

lemma valid_hand_is_solved:
  "has_valid_hand fr \<Longrightarrow>
   computed (on_frame self fr w) = Some (actuator_lengths (hands_rightmost fr))"
  by (cases w) (simp_all add: on_frame_def has_valid_hand_def Let_def)

lemma transmissions_Nil: "transmissions [] = 0"
  by (simp add: transmissions_def)

lemma transmissions_append: "transmissions (xs @ ys) = transmissions xs + transmissions ys"
  by (simp add: transmissions_def)

lemma transmissions_timeout_messages: "transmissions timeout_messages = 0"
  by (simp add: transmissions_def timeout_messages_def)

lemma timeout_messages_no_port_call:
  "count_list timeout_messages SerClose = 0" "count_list timeout_messages SerOpen = 0"
  by (simp_all add: timeout_messages_def eval_nat_numeral)

lemma timeout_message_printed: "Print ''Timeout detected!'' \<in> set timeout_messages"
  by (simp add: timeout_messages_def)

text \<open>One valid-pose frame, by the value of the counter.\<close>

lemma step_valid_low:
  assumes "has_valid_hand fr" "frame_count self \<le> FRAME_RATE"
  shows "raised (on_frame self fr w) = None"
    and "transmissions (effects (on_frame self fr w)) = 0"
    and "frame_count (after (on_frame self fr w)) = frame_count self + 1"
  using assms by (simp_all add: on_frame_skip transmissions_def)

lemma step_valid_high:
  assumes "has_valid_hand fr" "FRAME_RATE < frame_count self" "w \<noteq> WriteFault"
  shows "raised (on_frame self fr w) = None"
    and "transmissions (effects (on_frame self fr w)) = 1"
    and "frame_count (after (on_frame self fr w)) = 0"
  using assms
  by (cases w; simp add: on_frame_written on_frame_timeout transmissions_def timeout_messages_def)+

lemma run_Cons_continue:
  "raised (on_frame self fr w) = None \<Longrightarrow>
   run self ((fr, w) # rest) =
     (run (after (on_frame self fr w)) rest)
       \<lparr>emitted := effects (on_frame self fr w) @ emitted (run (after (on_frame self fr w)) rest)\<rparr>"
  by (simp add: Let_def)

text \<open>
  A stream of valid-pose frames none of whose writes faults, started with the counter at
  \<open>c\<close>: the writes, the counter at the end, and no abort.
\<close>

lemma valid_stream:
  assumes "\<forall>(fr, w) \<in> set fs. has_valid_hand fr \<and> w \<noteq> WriteFault"
    and "frame_count self = int c" and "c < cycle_length"
  shows "transmissions (emitted (run self fs)) = (c + length fs) div cycle_length
       \<and> frame_count (listener_now (run self fs)) = int ((c + length fs) mod cycle_length)
       \<and> \<not> aborted (run self fs)"
  using assms
proof (induction fs arbitrary: self c)
  case Nil
  then show ?case by (simp add: transmissions_def)
next
  case (Cons a fs)
  obtain fr w where a: "a = (fr, w)" by (cases a)
  from Cons.prems a have v: "has_valid_hand fr" and nf: "w \<noteq> WriteFault"
    and rest: "\<forall>(fr, w) \<in> set fs. has_valid_hand fr \<and> w \<noteq> WriteFault"
    by auto
  let ?r = "on_frame self fr w"
  show ?case
  proof (cases "frame_count self \<le> FRAME_RATE")
    case True
    have c1: "Suc c < cycle_length"
      using True Cons.prems(2) FRAME_RATE_nonneg unfolding cycle_length_def by linarith
    have fc: "frame_count (after ?r) = int (Suc c)"
      using step_valid_low(3) [OF v True] Cons.prems(2) by simp
    have none: "raised ?r = None" by (rule step_valid_low(1) [OF v True])
    have tr: "transmissions (effects ?r) = 0" by (rule step_valid_low(2) [OF v True])
    from Cons.IH [OF rest fc c1] show ?thesis
      by (simp add: a run_Cons_continue [OF none] transmissions_append tr del: run.simps)
  next
    case False
    then have hi: "FRAME_RATE < frame_count self" by simp
    have cN: "Suc c = cycle_length"
      using hi Cons.prems(2,3) FRAME_RATE_nonneg unfolding cycle_length_def by linarith
    have fc: "frame_count (after ?r) = int 0"
      using step_valid_high(3) [OF v hi nf] by simp
    have none: "raised ?r = None" by (rule step_valid_high(1) [OF v hi nf])
    have tr: "transmissions (effects ?r) = 1" by (rule step_valid_high(2) [OF v hi nf])
    have p0: "0 < cycle_length" by (simp add: cycle_length_def)
    have eq: "Suc (c + length fs) = length fs + cycle_length" using cN by simp
    from Cons.IH [OF rest fc p0] show ?thesis
      by (simp add: a run_Cons_continue [OF none] transmissions_append tr eq p0 del: run.simps)
  qed
qed

text \<open>The same stream of one frame repeated, from the listener that \<open>on_init\<close> leaves.\<close>

lemma home_frame_valid: "has_valid_hand home_frame"
  by (simp add: has_valid_hand_def home_frame_def home_hand_def)

lemma no_hands_frame_invalid: "\<not> has_valid_hand no_hands_frame"
  by (simp add: has_valid_hand_def no_hands_frame_def)

lemma invalid_hand_frame_invalid: "\<not> has_valid_hand invalid_hand_frame"
  by (simp add: has_valid_hand_def invalid_hand_frame_def home_hand_def)

lemma fresh_listener_count: "frame_count fresh_listener = 0"
  by (simp add: fresh_listener_def on_init_def)

lemma home_stream:
  "transmissions (emitted (run fresh_listener (replicate n (home_frame, Written))))
     = n div cycle_length
   \<and> frame_count (listener_now (run fresh_listener (replicate n (home_frame, Written))))
     = int (n mod cycle_length)"
proof -
  have "\<forall>(fr, w) \<in> set (replicate n (home_frame, Written)). has_valid_hand fr \<and> w \<noteq> WriteFault"
    by (simp add: home_frame_valid)
  moreover have "frame_count fresh_listener = int 0"
    by (simp add: fresh_listener_count)
  moreover have "0 < cycle_length"
    by (simp add: cycle_length_def)
  ultimately show ?thesis
    using valid_stream [of "replicate n (home_frame, Written)" fresh_listener 0] by simp
qed

text \<open>The counter never leaves \<open>0 .. FRAME_RATE + 1\<close>, whatever the frames and the device.\<close>

lemma counter_range_step:
  assumes "0 \<le> frame_count self" "frame_count self \<le> FRAME_RATE + 1"
  shows "0 \<le> frame_count (after (on_frame self fr w))
       \<and> frame_count (after (on_frame self fr w)) \<le> FRAME_RATE + 1"
  using assms by (cases w) (simp_all add: on_frame_def Let_def)

lemma counter_range_run:
  assumes "0 \<le> frame_count self" "frame_count self \<le> FRAME_RATE + 1"
  shows "0 \<le> frame_count (listener_now (run self fs))
       \<and> frame_count (listener_now (run self fs)) \<le> FRAME_RATE + 1"
  using assms
proof (induction fs arbitrary: self)
  case Nil
  then show ?case by simp
next
  case (Cons a fs)
  obtain fr w where a: "a = (fr, w)" by (cases a)
  have step: "0 \<le> frame_count (after (on_frame self fr w))
       \<and> frame_count (after (on_frame self fr w)) \<le> FRAME_RATE + 1"
    using Cons.prems by (rule counter_range_step)
  show ?case
  proof (cases "raised (on_frame self fr w)")
    case None
    with Cons.IH [of "after (on_frame self fr w)"] step show ?thesis
      by (simp add: a Let_def)
  next
    case (Some e)
    with step show ?thesis by (simp add: a Let_def)
  qed
qed

text \<open>What a session does depends on the listener through the counter alone.\<close>

lemma on_frame_counter_only:
  assumes "frame_count s1 = frame_count s2"
  shows "effects (on_frame s1 fr w) = effects (on_frame s2 fr w)"
    and "raised (on_frame s1 fr w) = raised (on_frame s2 fr w)"
    and "frame_count (after (on_frame s1 fr w)) = frame_count (after (on_frame s2 fr w))"
  using assms by (cases w; simp add: on_frame_def Let_def)+

lemma run_counter_only:
  assumes "frame_count s1 = frame_count s2"
  shows "emitted (run s1 fs) = emitted (run s2 fs) \<and> aborted (run s1 fs) = aborted (run s2 fs)"
  using assms
proof (induction fs arbitrary: s1 s2)
  case Nil
  then show ?case by simp
next
  case (Cons a fs)
  obtain fr w where a: "a = (fr, w)" by (cases a)
  note eqs = on_frame_counter_only [OF Cons.prems, of fr w]
  show ?case
  proof (cases "raised (on_frame s2 fr w)")
    case None
    with eqs Cons.IH [OF eqs(3)] show ?thesis by (simp add: a Let_def)
  next
    case (Some e)
    with eqs show ?thesis by (simp add: a Let_def)
  qed
qed

section \<open>Pacing\<close>

text \<open>
  Claim C1. The claim: one transmission in every window of \<open>FRAME_RATE + 1\<close> valid-pose
  frames. The callback, run from the listener of \<open>on_init\<close> on valid-pose frames whose
  writes succeed: the first \<open>FRAME_RATE + 1\<close> frames transmit nothing, the first
  transmission comes with frame \<open>FRAME_RATE + 2\<close>, and two windows of \<open>FRAME_RATE + 1\<close>
  frames hold one transmission, not two.
\<close>

theorem first_window_transmits_nothing:
  "transmissions (emitted (run fresh_listener
       (replicate (nat FRAME_RATE + 1) (home_frame, Written)))) = 0
   \<and> transmissions (emitted (run fresh_listener
       (replicate (nat FRAME_RATE + 2) (home_frame, Written)))) = 1
   \<and> transmissions (emitted (run fresh_listener
       (replicate (2 * (nat FRAME_RATE + 1)) (home_frame, Written)))) = 1"
  by (simp add: home_stream cycle_length_def FRAME_RATE_def)

text \<open>
  Claim C2. The claim: the counter stays within \<open>0 .. FRAME_RATE\<close>. The callback: after
  \<open>FRAME_RATE + 1\<close> valid-pose frames from the listener of \<open>on_init\<close> the counter is
  \<open>FRAME_RATE + 1\<close>.
\<close>

theorem counter_reaches_frame_rate_plus_one:
  "frame_count (listener_now (run fresh_listener
       (replicate (nat FRAME_RATE + 1) (home_frame, Written)))) = FRAME_RATE + 1
   \<and> FRAME_RATE < frame_count (listener_now (run fresh_listener
       (replicate (nat FRAME_RATE + 1) (home_frame, Written))))"
  by (simp add: home_stream cycle_length_def FRAME_RATE_def)

section \<open>Frames without a valid hand\<close>

text \<open>
  Claim C3 as stated fails: from the listener of \<open>on_init\<close> a valid-pose frame transmits
  nothing and moves the counter from 0 to 1, while a frame with no hands, and a frame
  whose rightmost hand is invalid, leave the counter at 0.
\<close>

theorem absent_hand_counter_counterexample:
  "effects (on_frame fresh_listener home_frame Written) = []
   \<and> frame_count (after (on_frame fresh_listener home_frame Written)) = 1
   \<and> frame_count (after (on_frame fresh_listener no_hands_frame Written)) = 0
   \<and> frame_count (after (on_frame fresh_listener invalid_hand_frame Written)) = 0
   \<and> frame_count (after (on_frame fresh_listener no_hands_frame Written))
       \<noteq> frame_count (after (on_frame fresh_listener home_frame Written))"
  by (simp add: on_frame_skip [OF home_frame_valid] fresh_listener_count FRAME_RATE_def
      on_frame_no_valid_hand [OF no_hands_frame_invalid]
      on_frame_no_valid_hand [OF invalid_hand_frame_invalid])

text \<open>
  Claim C3, amended. A frame with no hands, or whose rightmost hand is not valid,
  produces no output and leaves the listener, the frame counter included, as it was.
\<close>

theorem absent_hand_frame_changes_nothing:
  "hands_len fr = 0 \<or> \<not> is_valid (hands_rightmost fr) \<Longrightarrow>
   effects (on_frame self fr w) = []
   \<and> frame_count (after (on_frame self fr w)) = frame_count self
   \<and> after (on_frame self fr w) = self"
  by (auto simp add: on_frame_def Let_def)

theorem absent_hand_frame_changes_nothing_witness:
  "(hands_len no_hands_frame = 0 \<or> \<not> is_valid (hands_rightmost no_hands_frame))
   \<and> effects (on_frame due_listener no_hands_frame Written) = []
   \<and> frame_count (after (on_frame due_listener no_hands_frame Written)) = FRAME_RATE + 1
   \<and> after (on_frame due_listener no_hands_frame Written) = due_listener"
  using absent_hand_frame_changes_nothing [of no_hands_frame due_listener Written]
  by (simp add: no_hands_frame_def due_listener_def)

text \<open>
  Claim C7. On a frame with no hands, or whose rightmost hand is not valid, the callback
  makes no call of \<open>ser.write\<close> (whatever the counter), raises nothing, and does not
  execute the kinematics block: \<open>actuator_lengths\<close> is not bound.
\<close>

theorem absent_hand_no_write_no_kinematics:
  "hands_len fr = 0 \<or> \<not> is_valid (hands_rightmost fr) \<Longrightarrow>
   transmissions (effects (on_frame self fr w)) = 0
   \<and> SerWrite s \<notin> set (effects (on_frame self fr w))
   \<and> raised (on_frame self fr w) = None
   \<and> computed (on_frame self fr w) = None"
  by (auto simp add: on_frame_def Let_def transmissions_def)

theorem absent_hand_no_write_no_kinematics_witness:
  "(hands_len invalid_hand_frame = 0 \<or> \<not> is_valid (hands_rightmost invalid_hand_frame))
   \<and> FRAME_RATE < frame_count due_listener
   \<and> transmissions (effects (on_frame due_listener invalid_hand_frame Written)) = 0
   \<and> computed (on_frame due_listener invalid_hand_frame Written) = None
   \<and> computed (on_frame due_listener home_frame Written) \<noteq> None"
  using absent_hand_no_write_no_kinematics [of invalid_hand_frame due_listener Written]
    valid_hand_is_solved [OF home_frame_valid, of due_listener Written]
  by (simp add: invalid_hand_frame_def home_hand_def due_listener_def)

section \<open>Write timeouts\<close>

text \<open>
  Claim C6. When the write of a transmitting frame times out, the callback prints the
  command, calls \<open>ser.write\<close> once, prints the timeout message, closes the port once and
  opens it once, in this order, and returns without an exception with the port open; the
  session goes on with the frames that follow, and the next frame makes no write.
\<close>

theorem write_timeout_recovery:
  assumes "has_valid_hand fr" and "FRAME_RATE < frame_count self"
  shows "effects (on_frame self fr WriteTimeout) =
           [Print (assemble_serial_output (actuator_lengths (hands_rightmost fr))),
            SerWrite (assemble_serial_output (actuator_lengths (hands_rightmost fr)))]
           @ timeout_messages @ [SerClose, SerOpen]
       \<and> transmissions (effects (on_frame self fr WriteTimeout)) = 1
       \<and> count_list (effects (on_frame self fr WriteTimeout)) SerClose = 1
       \<and> count_list (effects (on_frame self fr WriteTimeout)) SerOpen = 1
       \<and> Print ''Timeout detected!'' \<in> set (effects (on_frame self fr WriteTimeout))
       \<and> raised (on_frame self fr WriteTimeout) = None
       \<and> ser_is_open (after (on_frame self fr WriteTimeout))
       \<and> transmissions (effects (on_frame (after (on_frame self fr WriteTimeout)) fr' w')) = 0
       \<and> run self ((fr, WriteTimeout) # rest) =
            (run (after (on_frame self fr WriteTimeout)) rest)
              \<lparr>emitted := effects (on_frame self fr WriteTimeout)
                 @ emitted (run (after (on_frame self fr WriteTimeout)) rest)\<rparr>"
proof -
  let ?r = "on_frame self fr WriteTimeout"
  note r = on_frame_timeout [OF assms]
  have none: "raised ?r = None" by (simp add: r)
  have zero: "frame_count (after ?r) \<le> FRAME_RATE"
    by (simp add: r FRAME_RATE_nonneg)
  have next_frame: "transmissions (effects (on_frame (after ?r) fr' w')) = 0"
  proof (cases "has_valid_hand fr'")
    case True
    then show ?thesis using zero by (rule step_valid_low(2))
  next
    case False
    then show ?thesis by (simp add: on_frame_no_valid_hand transmissions_Nil)
  qed
  have "effects ?r =
           [Print (assemble_serial_output (actuator_lengths (hands_rightmost fr))),
            SerWrite (assemble_serial_output (actuator_lengths (hands_rightmost fr)))]
           @ timeout_messages @ [SerClose, SerOpen]"
    by (simp add: r)
  moreover have "transmissions (effects ?r) = 1"
    by (rule step_valid_high(2) [OF assms]) simp
  moreover have "count_list (effects ?r) SerClose = 1" "count_list (effects ?r) SerOpen = 1"
    by (simp_all add: r timeout_messages_no_port_call)
  moreover have "Print ''Timeout detected!'' \<in> set (effects ?r)"
    by (simp add: r timeout_message_printed)
  moreover have "ser_is_open (after ?r)"
    by (simp add: r)
  moreover note none next_frame run_Cons_continue [OF none, of rest]
  ultimately show ?thesis by blast
qed

theorem write_timeout_recovery_witness:
  "has_valid_hand home_frame \<and> FRAME_RATE < frame_count due_listener
   \<and> effects (on_frame due_listener home_frame WriteTimeout) =
        [Print ''<22,22,22,22,22,22>'', SerWrite ''<22,22,22,22,22,22>'',
         Print ''Timeout detected!'', Print ''Timeout detected!'', Print ''Timeout detected!'',
         Print ''Timeout detected!'', Print ''Timeout detected!'', SerClose, SerOpen]
   \<and> count_list (effects (on_frame due_listener home_frame WriteTimeout)) SerClose = 1
   \<and> count_list (effects (on_frame due_listener home_frame WriteTimeout)) SerOpen = 1
   \<and> transmissions (effects (on_frame due_listener home_frame WriteTimeout)) = 1
   \<and> raised (on_frame due_listener home_frame WriteTimeout) = None
   \<and> \<not> aborted (run due_listener [(home_frame, WriteTimeout), (home_frame, Written)])"
proof -
  have v: "has_valid_hand home_frame" by (rule home_frame_valid)
  have d: "FRAME_RATE < frame_count due_listener" by (simp add: due_listener_def)
  let ?r = "on_frame due_listener home_frame WriteTimeout"
  note rec = write_timeout_recovery [OF v d, of home_frame Written "[(home_frame, Written)]"]
  from rec have counts:
    "count_list (effects ?r) SerClose = 1" "count_list (effects ?r) SerOpen = 1"
    "transmissions (effects ?r) = 1" "raised ?r = None"
    by blast+
  from rec have "effects ?r =
      [Print (assemble_serial_output (actuator_lengths (hands_rightmost home_frame))),
       SerWrite (assemble_serial_output (actuator_lengths (hands_rightmost home_frame)))]
      @ timeout_messages @ [SerClose, SerOpen]"
    by blast
  moreover have "hands_rightmost home_frame = home_hand"
    by (simp add: home_frame_def)
  ultimately have eff: "effects ?r =
        [Print ''<22,22,22,22,22,22>'', SerWrite ''<22,22,22,22,22,22>'',
         Print ''Timeout detected!'', Print ''Timeout detected!'', Print ''Timeout detected!'',
         Print ''Timeout detected!'', Print ''Timeout detected!'', SerClose, SerOpen]"
    by (simp add: home_command timeout_messages_def eval_nat_numeral)
  from rec have "run due_listener [(home_frame, WriteTimeout), (home_frame, Written)] =
      (run (after ?r) [(home_frame, Written)])
        \<lparr>emitted := effects ?r @ emitted (run (after ?r) [(home_frame, Written)])\<rparr>"
    by blast
  then have "aborted (run due_listener [(home_frame, WriteTimeout), (home_frame, Written)])
      = aborted (run (after ?r) [(home_frame, Written)])"
    by simp
  moreover have "frame_count (after ?r) \<le> FRAME_RATE"
    by (simp add: on_frame_timeout [OF v d] FRAME_RATE_nonneg)
  then have "\<not> aborted (run (after ?r) [(home_frame, Written)])"
    by (simp add: step_valid_low(1) [OF v] Let_def)
  ultimately show ?thesis using v d counts eff by blast
qed

text \<open>
  Claim C10. On a transmitting frame a write that times out leaves the frame counter at
  0, as a write that succeeds does, and whatever frames follow, the session emits from
  there the same effects in both cases: the next write comes after the same number of
  frames.
\<close>

theorem timeout_resets_counter_like_success:
  assumes "has_valid_hand fr" and "FRAME_RATE < frame_count self"
  shows "frame_count (after (on_frame self fr WriteTimeout)) = 0
       \<and> frame_count (after (on_frame self fr Written)) = 0
       \<and> emitted (run (after (on_frame self fr WriteTimeout)) rest)
           = emitted (run (after (on_frame self fr Written)) rest)
       \<and> aborted (run (after (on_frame self fr WriteTimeout)) rest)
           = aborted (run (after (on_frame self fr Written)) rest)"
proof -
  have t: "frame_count (after (on_frame self fr WriteTimeout)) = 0"
    by (simp add: on_frame_timeout [OF assms])
  have s: "frame_count (after (on_frame self fr Written)) = 0"
    by (simp add: on_frame_written [OF assms])
  from t s have "frame_count (after (on_frame self fr WriteTimeout))
      = frame_count (after (on_frame self fr Written))"
    by simp
  from run_counter_only [OF this, of rest] t s show ?thesis by simp
qed

theorem timeout_resets_counter_like_success_witness:
  "has_valid_hand home_frame \<and> FRAME_RATE < frame_count due_listener
   \<and> frame_count (after (on_frame due_listener home_frame WriteTimeout)) = 0
   \<and> emitted (run (after (on_frame due_listener home_frame WriteTimeout))
        (replicate 12 (home_frame, Written)))
       = emitted (run (after (on_frame due_listener home_frame Written))
        (replicate 12 (home_frame, Written)))"
proof -
  have v: "has_valid_hand home_frame" by (rule home_frame_valid)
  have d: "FRAME_RATE < frame_count due_listener" by (simp add: due_listener_def)
  from timeout_resets_counter_like_success [OF v d, of "replicate 12 (home_frame, Written)"]
  show ?thesis using v d by blast
qed

end
